theory Spec2Isabelle
  imports Complex_Main
begin

section \<open>The fault injection service (scripts/mock_binance.py)\<close>

text \<open>
  The module keeps one global dictionary \<open>attempt_registry\<close> from endpoint names to
  attempt counts. Every handler is modelled as a function that takes the registry and
  returns the response together with the registry it leaves behind. The diagnostic
  \<open>print\<close> calls of the handlers write to the server console only and are not part of
  the model. \<open>int(time.time() * 1000)\<close> is the reading \<open>now\<close> of a clock that the caller
  of the model supplies.
\<close>

type_synonym registry = "string \<rightharpoonup> int"

datatype json =
    JString string
  | JInt int
  | JArray "json list"
  | JObject "(string \<times> json) list"

record response =
  status :: int
  body :: json

text \<open>\<open>jsonify(d)\<close> alone is a response with status 200; \<open>jsonify(d), c\<close> has status \<open>c\<close>.\<close>

definition jsonify :: "(string \<times> json) list \<Rightarrow> response" where
  "jsonify d = \<lparr>status = 200, body = JObject d\<rparr>"

definition jsonify_status :: "(string \<times> json) list \<Rightarrow> int \<Rightarrow> response" where
  "jsonify_status d c = \<lparr>status = c, body = JObject d\<rparr>"

definition get_attempt :: "string \<Rightarrow> registry \<Rightarrow> int \<times> registry" where
  "get_attempt endpoint reg =
     (let n = (case reg endpoint of None \<Rightarrow> 0 | Some n \<Rightarrow> n) + 1
      in (n, reg(endpoint \<mapsto> n)))"

definition reset_attempt :: "string \<Rightarrow> registry \<Rightarrow> registry" where
  "reset_attempt endpoint reg = reg(endpoint \<mapsto> 0)"

definition mock_time :: "int \<Rightarrow> registry \<Rightarrow> response \<times> registry" where
  "mock_time now reg =
     (let (attempt, reg1) = get_attempt ''time'' reg in
      if attempt < 4 then (jsonify_status [(''msg'', JString ''Server Busy'')] 503, reg1)
      else (jsonify [(''serverTime'', JInt now)], reset_attempt ''time'' reg1))"

definition mock_exchange_info :: "string option \<Rightarrow> registry \<Rightarrow> response \<times> registry" where
  "mock_exchange_info symbol_arg reg =
     (let symbol = (case symbol_arg of None \<Rightarrow> ''BTCUSDT'' | Some s \<Rightarrow> s) in
      (jsonify [(''symbols'', JArray [JObject
         [(''symbol'', JString symbol),
          (''status'', JString ''TRADING''),
          (''baseAsset'', JString ''BTC''),
          (''quoteAsset'', JString ''USDT''),
          (''filters'', JArray
             [JObject [(''filterType'', JString ''PRICE_FILTER''), (''minPrice'', JString ''0.01''),
                       (''maxPrice'', JString ''100000.00''), (''tickSize'', JString ''0.01'')],
              JObject [(''filterType'', JString ''LOT_SIZE''), (''minQty'', JString ''0.0001''),
                       (''maxQty'', JString ''100.00''), (''stepSize'', JString ''0.0001'')],
              JObject [(''filterType'', JString ''MIN_NOTIONAL''), (''minNotional'', JString ''10.00'')],
              JObject [(''filterType'', JString ''PERCENT_PRICE_BY_SIDE''),
                       (''bidMultiplierUp'', JString ''1.2''), (''bidMultiplierDown'', JString ''0.8''),
                       (''askMultiplierUp'', JString ''1.2''), (''askMultiplierDown'', JString ''0.8''),
                       (''avgPriceMins'', JInt 5)]])]])],
       reg))"

definition mock_ticker :: "registry \<Rightarrow> response \<times> registry" where
  "mock_ticker reg =
     (let (attempt, reg1) = get_attempt ''ticker'' reg in
      if attempt = 4
      then (jsonify_status [(''code'', JInt (- 1003)), (''msg'', JString ''Too many requests'')] 429, reg1)
      else (jsonify [(''symbol'', JString ''BTCUSDT''), (''price'', JString ''60000.00'')],
            reset_attempt ''ticker'' reg1))"

definition mock_account :: "registry \<Rightarrow> response \<times> registry" where
  "mock_account reg =
     (jsonify [(''balances'', JArray
        [JObject [(''asset'', JString ''BTC''), (''free'', JString ''1.50000000''),
                  (''locked'', JString ''0.00000000'')],
         JObject [(''asset'', JString ''USDT''), (''free'', JString ''10000.00000000''),
                  (''locked'', JString ''500.00000000'')]])],
      reg)"

definition mock_place_order :: "int \<Rightarrow> registry \<Rightarrow> response \<times> registry" where
  "mock_place_order now reg =
     (let (attempt, reg1) = get_attempt ''place_order'' reg in
      if attempt \<le> 4
      then (jsonify_status [(''code'', JInt (- 1003)), (''msg'', JString ''IP Banned'')] 418, reg1)
      else (jsonify
              [(''symbol'', JString ''BTCUSDT''),
               (''orderId'', JInt 1234567),
               (''clientOrderId'', JString []),
               (''transactTime'', JInt now),
               (''price'', JString ''55000.00''),
               (''origQty'', JString ''0.1''),
               (''executedQty'', JString ''0.0''),
               (''status'', JString ''NEW'')],
            reset_attempt ''place_order'' reg1))"

text \<open>
  The routes of the Flask application. A request is one of the five registered routes
  (the exchange-info query carries its optional \<open>symbol\<close> argument); \<open>handle\<close> is the
  dispatch to the handler, and \<open>serve\<close> answers a sequence of requests one after the
  other, each with the clock reading at its arrival, starting from a given registry.
\<close>

datatype request =
    GetTime
  | GetExchangeInfo "string option"
  | GetTicker
  | GetAccount
  | PostOrder

fun handle :: "int \<Rightarrow> request \<Rightarrow> registry \<Rightarrow> response \<times> registry" where
  "handle now GetTime reg = mock_time now reg"
| "handle now (GetExchangeInfo s) reg = mock_exchange_info s reg"
| "handle now GetTicker reg = mock_ticker reg"
| "handle now GetAccount reg = mock_account reg"
| "handle now PostOrder reg = mock_place_order now reg"

fun serve :: "(int \<times> request) list \<Rightarrow> registry \<Rightarrow> response list \<times> registry" where
  "serve [] reg = ([], reg)"
| "serve ((now, rq) # rest) reg =
     (let (resp, reg1) = handle now rq reg;
          (resps, reg2) = serve rest reg1
      in (resp # resps, reg2))"

text \<open>The value a counter has for a reader: \<open>attempt_registry.get(endpoint, 0)\<close>.\<close>

definition counter :: "registry \<Rightarrow> string \<Rightarrow> int" where
  "counter reg endpoint = (case reg endpoint of None \<Rightarrow> 0 | Some n \<Rightarrow> n)"

section \<open>The soak test driver (scripts/cli_loop_test.py)\<close>

text \<open>
  The durations, the timeout and the sleep interval are finite Python floats and are
  given as the real numbers they denote; Python's unbounded \<open>int\<close> is \<open>int\<close>. The one
  float operation whose rounding decides a result is the product
  \<open>pct * len(sorted_vals)\<close> of \<open>percentile\<close>: \<open>percentile_float\<close> below is that function
  on IEEE 754 doubles, with the rounding of the product and the exceptions of
  \<open>math.ceil\<close>. The model of \<open>main\<close> takes the product of its two calls, at 0.50 and
  0.95, and the sum of its average exactly (\<open>percentile\<close> and \<open>average\<close> below).
\<close>

datatype error = TimeoutExpired | IndexError | OverflowError | ValueError

subsection \<open>Strings\<close>

text \<open>\<open>s.startswith(p)\<close>, \<open>needle in s\<close>, \<open>str(i)\<close> and \<open>s.replace(old, new)\<close>.\<close>

primrec starts_with :: "string \<Rightarrow> string \<Rightarrow> bool" where
  "starts_with [] p = (p = [])"
| "starts_with (c # cs) p = (case p of [] \<Rightarrow> True | d # ds \<Rightarrow> c = d \<and> starts_with cs ds)"

primrec contains :: "string \<Rightarrow> string \<Rightarrow> bool" where
  "contains needle [] = (needle = [])"
| "contains needle (c # cs) = (starts_with (c # cs) needle \<or> contains needle cs)"

definition digit_char :: "nat \<Rightarrow> char" where
  "digit_char d = ''0123456789'' ! d"

fun str_nat :: "nat \<Rightarrow> string" where
  "str_nat n = (if n < 10 then [digit_char n] else str_nat (n div 10) @ [digit_char (n mod 10)])"

declare str_nat.simps [simp del]

definition str_int :: "int \<Rightarrow> string" where
  "str_int i = (if i < 0 then CHR ''-'' # str_nat (nat (- i)) else str_nat (nat i))"

text \<open>
  \<open>replace_from k old new s\<close> copies \<open>s\<close> with every occurrence of the non-empty \<open>old\<close>
  replaced, from left to right and without overlap; \<open>k\<close> is the number of characters
  still to skip of an occurrence that has just been replaced.
\<close>

fun replace_from :: "nat \<Rightarrow> string \<Rightarrow> string \<Rightarrow> string \<Rightarrow> string" where
  "replace_from k old new [] = []"
| "replace_from (Suc k) old new (c # cs) = replace_from k old new cs"
| "replace_from 0 old new (c # cs) =
     (if starts_with (c # cs) old then new @ replace_from (length old - 1) old new cs
      else c # replace_from 0 old new cs)"

definition str_replace :: "string \<Rightarrow> string \<Rightarrow> string \<Rightarrow> string" where
  "str_replace s old new =
     (if old = [] then new @ concat (map (\<lambda>c. c # new) s) else replace_from 0 old new s)"

subsection \<open>Arguments, the target process and the effects of the driver\<close>

text \<open>The namespace that \<open>parse_args\<close> returns; argument parsing itself is not modelled.\<close>

record args =
  jar :: string
  iterations :: int
  sleep :: real
  timeout :: real
  log_dir :: string
  verbose :: bool
  command :: "string list"

text \<open>
  What \<open>subprocess.run\<close> does with the target process is outside the program: the
  process either exceeds the timeout (\<open>subprocess.TimeoutExpired\<close> is raised) or exits
  with a return code and the captured text (\<open>None\<close> when nothing was captured), after
  the duration that \<open>run_once\<close> measures around it. The environment gives, for each
  iteration, the clock reading of \<open>render_command\<close> and the behaviour of the process for
  a command line and a timeout. A process that cannot be started at all is outside
  the model.
\<close>

datatype proc_outcome =
    TimedOut
  | Exited int real "string option"

record env =
  clock_ms :: "int \<Rightarrow> int"
  run_proc :: "int \<Rightarrow> string list \<Rightarrow> real \<Rightarrow> proc_outcome"

record result =
  exit_code :: int
  duration :: real
  "output" :: string
  retriable :: bool
  rate_limit :: bool

record summary =
  sum_command :: "string list"
  sum_iterations :: int
  sum_successes :: int
  sum_rate_limits :: int
  sum_retriable_seen :: int
  sum_crashes :: int
  sum_avg :: real
  sum_p50 :: real
  sum_p95 :: real
  sum_min :: real
  sum_max :: real

text \<open>
  What the driver does to the outside, in order: the lines it prints (the formatted
  lines are kept as their fields), the directory and files it writes and its pauses.
  \<open>PrintTimeout i t\<close> is the line \<open>[i] TIMEOUT after t s\<close>, and
  \<open>PrintStatus i status code elapsed retriable\<close> is the line
  \<open>[i] status exit=code elapsed=... retriable=Y/N\<close>.
\<close>

datatype effect =
    Print string
  | MakeDirs string
  | PrintTimeout int real
  | WriteLog string int string
  | PrintOutput string
  | PrintStatus int string int real bool
  | Sleep real
  | PrintSummary summary

record run_state =
  crashes :: int
  rate_limits :: int
  successes :: int
  retriable_seen :: int
  durations :: "real list"
  trace :: "effect list"

subsection \<open>The functions of the driver\<close>

definition run_once :: "(string list \<Rightarrow> real \<Rightarrow> proc_outcome) \<Rightarrow> string list \<Rightarrow> real \<Rightarrow> error + result" where
  "run_once run cmd tmo =
     (case run cmd tmo of
        TimedOut \<Rightarrow> Inl TimeoutExpired
      | Exited returncode elapsed captured \<Rightarrow>
          (let out = (case captured of None \<Rightarrow> [] | Some t \<Rightarrow> t) in
           Inr \<lparr>exit_code = returncode, duration = elapsed, output = out,
                retriable = contains ''Retriable error'' out,
                rate_limit = contains ''Rate limit exceeded'' out\<rparr>))"

definition write_log :: "string \<Rightarrow> int \<Rightarrow> string \<Rightarrow> effect list" where
  "write_log dir iteration out = (if dir = [] then [] else [WriteLog dir iteration out])"

text \<open>\<open>xs[i]\<close>: a negative index counts from the end, an index out of range raises.\<close>

definition py_index :: "'a list \<Rightarrow> int \<Rightarrow> error + 'a" where
  "py_index xs i =
     (if 0 \<le> i \<and> i < int (length xs) then Inr (xs ! nat i)
      else if - int (length xs) \<le> i \<and> i < 0 then Inr (xs ! nat (int (length xs) + i))
      else Inl IndexError)"

subsection \<open>Doubles\<close>

text \<open>
  A Python float is a finite double (given by its value; the sign of zero is not
  kept), an infinity (\<open>Infinity True\<close> is \<open>inf\<close>, \<open>Infinity False\<close> is \<open>-inf\<close>) or NaN.
\<close>

datatype pyfloat = Finite real | Infinity bool | NaN

text \<open>
  Rounding a real number to the nearest double, ties to even. For \<open>n \<ge> 1\<close>,
  \<open>binade n\<close> is the integer part of the binary logarithm of \<open>n\<close>; for \<open>a > 0\<close>,
  \<open>exponent a\<close> is the \<open>e\<close> with \<open>2\<^sup>e \<le> a < 2\<^sup>e\<^sup>+\<^sup>1\<close>, and \<open>- 1022\<close> for the subnormal
  numbers below that; a double of exponent \<open>e\<close> is a multiple of \<open>2\<^sup>e\<^sup>-\<^sup>5\<^sup>2\<close> with at most 53
  bits. A number of magnitude \<open>2\<^sup>1\<^sup>0\<^sup>2\<^sup>4 - 2\<^sup>9\<^sup>7\<^sup>0\<close> or more, half a step above the largest
  double, rounds to an infinity.
\<close>

fun binade :: "nat \<Rightarrow> nat" where
  "binade n = (if n < 2 then 0 else Suc (binade (n div 2)))"

declare binade.simps [simp del]

definition exponent :: "real \<Rightarrow> int" where
  "exponent a =
     max (- 1022)
       (if 1 \<le> a then int (binade (nat \<lfloor>a\<rfloor>))
        else - int (binade (nat \<lceil>1 / a\<rceil> - 1)) - 1)"

definition pow2 :: "int \<Rightarrow> real" where
  "pow2 i = (if 0 \<le> i then 2 ^ nat i else 1 / 2 ^ nat (- i))"

definition round_half_even :: "real \<Rightarrow> int" where
  "round_half_even y =
     (let f = \<lfloor>y\<rfloor> in
      if y - of_int f < 1 / 2 then f
      else if 1 / 2 < y - of_int f then f + 1
      else if even f then f else f + 1)"

definition round_double :: "real \<Rightarrow> pyfloat" where
  "round_double x =
     (if x = 0 then Finite 0
      else if 2 ^ 1024 - 2 ^ 970 \<le> \<bar>x\<bar> then Infinity (0 < x)
      else
        (let q = pow2 (exponent \<bar>x\<bar> - 52)
         in Finite (sgn x * (of_int (round_half_even (\<bar>x\<bar> / q)) * q))))"

text \<open>
  The product of two floats is the exact product rounded; \<open>float(n)\<close> of an \<open>int\<close> is \<open>n\<close>
  rounded, and raises when \<open>n\<close> is too large for a double; \<open>math.ceil\<close> raises on an
  infinity and on NaN.
\<close>

fun float_mul :: "pyfloat \<Rightarrow> pyfloat \<Rightarrow> pyfloat" where
  "float_mul (Finite a) (Finite b) = round_double (a * b)"
| "float_mul (Finite a) (Infinity s) = (if a = 0 then NaN else Infinity (s = (0 < a)))"
| "float_mul (Infinity s) (Finite b) = (if b = 0 then NaN else Infinity (s = (0 < b)))"
| "float_mul (Infinity s) (Infinity t) = Infinity (s = t)"
| "float_mul NaN b = NaN"
| "float_mul a NaN = NaN"

definition float_of_int :: "int \<Rightarrow> error + pyfloat" where
  "float_of_int n =
     (case round_double (of_int n) of
        Finite x \<Rightarrow> Inr (Finite x)
      | other \<Rightarrow> Inl OverflowError)"

fun math_ceil :: "pyfloat \<Rightarrow> error + int" where
  "math_ceil (Finite x) = Inr \<lceil>x\<rceil>"
| "math_ceil (Infinity s) = Inl OverflowError"
| "math_ceil NaN = Inl ValueError"

subsection \<open>The percentile\<close>

text \<open>
  \<open>percentile(values, pct)\<close> on a list of finite samples and a float \<open>pct\<close>. In
  \<open>pct * len(sorted_vals)\<close> the length is converted to a float and the product is
  rounded; \<open>math.ceil\<close> of the product is an \<open>int\<close> or raises.
\<close>

definition percentile_float :: "real list \<Rightarrow> pyfloat \<Rightarrow> error + real" where
  "percentile_float vals pct =
     (if vals = [] then Inr 0
      else
        (let sorted_vals = sort vals in
         case float_of_int (int (length sorted_vals)) of
           Inl err \<Rightarrow> Inl err
         | Inr n \<Rightarrow>
             (case math_ceil (float_mul pct n) of
                Inl err \<Rightarrow> Inl err
              | Inr c \<Rightarrow>
                  (let idx = c - 1;
                       idx = max 0 (min idx (int (length sorted_vals) - 1))
                   in py_index sorted_vals idx))))"

text \<open>
  The same function with the product taken exactly, for a real \<open>pct\<close>. It is the one
  that the model of \<open>main\<close> calls; the two agree wherever the rounded and the exact
  product have the same ceiling (\<open>percentile_float_exact\<close> below).
\<close>

definition percentile :: "real list \<Rightarrow> real \<Rightarrow> error + real" where
  "percentile vals pct =
     (if vals = [] then Inr 0
      else
        (let sorted_vals = sort vals;
             idx = \<lceil>pct * real (length sorted_vals)\<rceil> - 1;
             idx = max 0 (min idx (int (length sorted_vals) - 1))
         in py_index sorted_vals idx))"

subsection \<open>The run\<close>

definition render_command :: "int \<Rightarrow> string list \<Rightarrow> int \<Rightarrow> string list" where
  "render_command timestamp_ms as iteration =
     map (\<lambda>arg. str_replace (str_replace arg ''{i}'' (str_int iteration))
                            ''{ts}'' (str_int timestamp_ms)) as"

text \<open>
  The body of the loop of \<open>main\<close> for iteration \<open>i\<close>. Only \<open>TimeoutExpired\<close> is caught;
  any other exception leaves the loop.
\<close>

definition iteration ::
  "args \<Rightarrow> env \<Rightarrow> string list \<Rightarrow> string list \<Rightarrow> run_state \<Rightarrow> int \<Rightarrow> error + run_state" where
  "iteration a e base_cmd cli_args s i =
     (let cmd = base_cmd @ render_command (clock_ms e i) cli_args i in
      case run_once (run_proc e i) cmd (timeout a) of
        Inl TimeoutExpired \<Rightarrow>
          Inr (s\<lparr>crashes := crashes s + 1, trace := trace s @ [PrintTimeout i (timeout a)]\<rparr>)
      | Inl other \<Rightarrow> Inl other
      | Inr r \<Rightarrow>
          (let s1 = s\<lparr>trace := trace s @ write_log (log_dir a) i (output r)\<rparr>;
               s2 = (if verbose a then s1\<lparr>trace := trace s1 @ [PrintOutput (output r)]\<rparr> else s1);
               s3 = s2\<lparr>durations := durations s2 @ [duration r]\<rparr>;
               s4 = (if exit_code r \<noteq> 0 then s3\<lparr>crashes := crashes s3 + 1\<rparr> else s3);
               s5 = (if retriable r then s4\<lparr>retriable_seen := retriable_seen s4 + 1\<rparr> else s4);
               (s6, st) =
                 (if rate_limit r then (s5\<lparr>rate_limits := rate_limits s5 + 1\<rparr>, ''RATE_LIMIT'')
                  else if exit_code r = 0 then (s5\<lparr>successes := successes s5 + 1\<rparr>, ''OK'')
                  else (s5, ''FAIL''));
               s7 = s6\<lparr>trace := trace s6 @ [PrintStatus i st (exit_code r) (duration r) (retriable r)]\<rparr>
           in Inr (if sleep a > 0 then s7\<lparr>trace := trace s7 @ [Sleep (sleep a)]\<rparr> else s7)))"

text \<open>\<open>for i in range(1, args.iterations + 1)\<close>, given as the list of its indices.\<close>

fun loop ::
  "args \<Rightarrow> env \<Rightarrow> string list \<Rightarrow> string list \<Rightarrow> int list \<Rightarrow> run_state \<Rightarrow> error + run_state" where
  "loop a e base_cmd cli_args [] s = Inr s"
| "loop a e base_cmd cli_args (i # rest) s =
     (case iteration a e base_cmd cli_args s i of
        Inl err \<Rightarrow> Inl err
      | Inr s' \<Rightarrow> loop a e base_cmd cli_args rest s')"

text \<open>The command line that \<open>main\<close> settles on before it runs anything.\<close>

definition resolve_cli_args :: "string list \<Rightarrow> string list" where
  "resolve_cli_args cmd =
     (let cli_args = (if cmd \<noteq> [] then cmd else [''balances''])
      in if cli_args \<noteq> [] \<and> hd cli_args = ''--'' then tl cli_args else cli_args)"

definition initial :: "args \<Rightarrow> run_state" where
  "initial a =
     \<lparr>crashes = 0, rate_limits = 0, successes = 0, retriable_seen = 0, durations = [],
      trace = (if log_dir a \<noteq> [] then [MakeDirs (log_dir a)] else [])\<rparr>"

definition run_iterations :: "args \<Rightarrow> env \<Rightarrow> string list \<Rightarrow> error + run_state" where
  "run_iterations a e cli_args =
     loop a e [''java'', ''-jar'', jar a] cli_args [1..iterations a] (initial a)"

definition average :: "real list \<Rightarrow> real" where
  "average ds = (if ds \<noteq> [] then sum_list ds / real (length ds) else 0)"

definition fastest :: "real list \<Rightarrow> real" where
  "fastest ds = (case ds of [] \<Rightarrow> 0 | d # rest \<Rightarrow> fold (\<lambda>x m. if x < m then x else m) rest d)"

definition slowest :: "real list \<Rightarrow> real" where
  "slowest ds = (case ds of [] \<Rightarrow> 0 | d # rest \<Rightarrow> fold (\<lambda>x m. if x > m then x else m) rest d)"

text \<open>
  \<open>main\<close> returns its exit code; the model returns with it everything the run did to
  the outside.
\<close>

definition main :: "args \<Rightarrow> env \<Rightarrow> error + (int \<times> effect list)" where
  "main a e =
     (let cli_args = resolve_cli_args (command a) in
      if cli_args = [] then Inr (2, [Print ''ERROR: No command provided. Example: -- balances''])
      else
        case run_iterations a e cli_args of
          Inl err \<Rightarrow> Inl err
        | Inr s \<Rightarrow>
            (case percentile (durations s) (50 / 100) of
               Inl err \<Rightarrow> Inl err
             | Inr p50 \<Rightarrow>
                 (case percentile (durations s) (95 / 100) of
                    Inl err \<Rightarrow> Inl err
                  | Inr p95 \<Rightarrow>
                      (let report = \<lparr>sum_command = cli_args, sum_iterations = iterations a,
                                     sum_successes = successes s, sum_rate_limits = rate_limits s,
                                     sum_retriable_seen = retriable_seen s, sum_crashes = crashes s,
                                     sum_avg = average (durations s), sum_p50 = p50, sum_p95 = p95,
                                     sum_min = fastest (durations s), sum_max = slowest (durations s)\<rparr>
                       in Inr (if crashes s > 0 then 2 else 0, trace s @ [PrintSummary report])))))"

subsection \<open>Reading the model\<close>

text \<open>
  The status word that a printed line shows for its iteration: \<open>TIMEOUT\<close> on the line of
  a timed-out run, the \<open>status\<close> variable on the line of a completed one.
\<close>

fun display_status :: "effect \<Rightarrow> string option" where
  "display_status (PrintTimeout i t) = Some ''TIMEOUT''"
| "display_status (PrintStatus i st code elapsed r) = Some st"
| "display_status other = None"

definition statuses :: "effect list \<Rightarrow> string list" where
  "statuses tr = List.map_filter display_status tr"

text \<open>
  The outcome of the process of iteration \<open>i\<close> in a run with the command line
  \<open>cli_args\<close>, and what the driver sees of an outcome.
\<close>

definition outcome_at :: "args \<Rightarrow> env \<Rightarrow> string list \<Rightarrow> int \<Rightarrow> proc_outcome" where
  "outcome_at a e cli_args i =
     run_proc e i ([''java'', ''-jar'', jar a] @ render_command (clock_ms e i) cli_args i) (timeout a)"

fun timed_out :: "proc_outcome \<Rightarrow> bool" where
  "timed_out TimedOut = True"
| "timed_out (Exited code elapsed captured) = False"

fun crashed :: "proc_outcome \<Rightarrow> bool" where
  "crashed TimedOut = True"
| "crashed (Exited code elapsed captured) = (code \<noteq> 0)"

fun sample :: "proc_outcome \<Rightarrow> real option" where
  "sample TimedOut = None"
| "sample (Exited code elapsed captured) = Some elapsed"

text \<open>
  Reading the service: \<open>calls rq clock\<close> is a client that sends the request \<open>rq\<close> once
  for every clock reading of \<open>clock\<close> and nothing else, and \<open>json_get\<close> reads one member
  of a JSON object.
\<close>

definition calls :: "request \<Rightarrow> int list \<Rightarrow> (int \<times> request) list" where
  "calls rq clock = map (\<lambda>t. (t, rq)) clock"

fun json_get :: "json \<Rightarrow> string \<Rightarrow> json option" where
  "json_get (JObject members) key = map_of members key"
| "json_get other key = None"

subsection \<open>The specification's wording of the classifier and of the percentile\<close>

text \<open>
  The display status of section 4.2 of the specification, in its words: timed out gives
  TIMEOUT; else rate limited gives RATE_LIMIT; else exit code zero gives OK; else FAIL.
  The crash tally of that section is \<open>crashed\<close> above.
\<close>

fun spec_status :: "proc_outcome \<Rightarrow> string" where
  "spec_status TimedOut = ''TIMEOUT''"
| "spec_status (Exited code elapsed captured) =
     (if contains ''Rate limit exceeded'' (case captured of None \<Rightarrow> [] | Some t \<Rightarrow> t)
      then ''RATE_LIMIT''
      else if code = 0 then ''OK''
      else ''FAIL'')"

text \<open>
  The nearest-rank method of section 4.3, in its words: sort ascending, rank is the
  ceiling of \<open>p\<close> times the count, clamped to \<open>[1, count]\<close>; the value at that 1-indexed
  rank. \<open>nearest_rank_at\<close> is the value at a given rank, clamped in the same way, and
  \<open>nearest_rank\<close> takes the rank from the exact product.
\<close>

definition nearest_rank_at :: "real list \<Rightarrow> int \<Rightarrow> real" where
  "nearest_rank_at xs rank = sort xs ! (nat (max 1 (min rank (int (length xs)))) - 1)"

definition nearest_rank :: "real list \<Rightarrow> real \<Rightarrow> real" where
  "nearest_rank xs p =
     (let rank = \<lceil>p * real (length xs)\<rceil>;
          rank = max 1 (min rank (int (length xs)))
      in sort xs ! (nat rank - 1))"

subsection \<open>Concrete runs\<close>

text \<open>
  Two invocations and two environments on which the driver is evaluated below.
  \<open>two_runs\<close> is the invocation \<open>--iterations 2\<close> with no command at all, and in
  \<open>healthy\<close> the target process succeeds exactly on the command line
  \<open>java -jar target/order-manager-1.0.0.jar balances\<close>. \<open>three_runs\<close> is
  \<open>--iterations 3 --sleep 0 --log-dir logs --verbose -- show {i}\<close>, and in \<open>flaky\<close> the
  second process exceeds the timeout and the third is rate limited and exits with 1.
\<close>

definition two_runs :: args where
  "two_runs = \<lparr>jar = ''target/order-manager-1.0.0.jar'', iterations = 2, sleep = 1 / 5,
                timeout = 30, log_dir = [], verbose = False, command = []\<rparr>"

definition healthy :: env where
  "healthy = \<lparr>clock_ms = (\<lambda>i. 1700000000000 + i),
              run_proc = (\<lambda>i cmd t.
                if cmd = [''java'', ''-jar'', ''target/order-manager-1.0.0.jar'', ''balances'']
                then Exited 0 (1 / 2) (Some ''BTC 1.50000000'')
                else Exited 1 (1 / 4) (Some ''Unknown command''))\<rparr>"

definition three_runs :: args where
  "three_runs = \<lparr>jar = ''target/order-manager-1.0.0.jar'', iterations = 3, sleep = 0,
                  timeout = 30, log_dir = ''logs'', verbose = True,
                  command = [''--'', ''show'', ''{i}'']\<rparr>"

definition flaky :: env where
  "flaky = \<lparr>clock_ms = (\<lambda>i. 1700000000000 + i),
            run_proc = (\<lambda>i cmd t.
              if i = 2 then TimedOut
              else if i = 3 then Exited 1 (3 / 4) (Some ''Rate limit exceeded, retry later'')
              else Exited 0 (1 / 2) None)\<rparr>"

section \<open>Properties of the fault injection service\<close>

lemmas handler_defs =
  mock_time_def mock_ticker_def mock_place_order_def mock_exchange_info_def mock_account_def
  get_attempt_def reset_attempt_def jsonify_def jsonify_status_def

subsection \<open>One call\<close>

lemma time_counter_step:
  "counter (snd (handle now GetTime reg)) ''time'' =
     (if counter reg ''time'' + 1 < 4 then counter reg ''time'' + 1 else 0)"
  by (simp add: handler_defs counter_def Let_def)

lemma time_status_step:
  "status (fst (handle now GetTime reg)) = (if counter reg ''time'' + 1 < 4 then 503 else 200)"
  by (simp add: handler_defs counter_def Let_def)

lemma order_counter_step:
  "counter (snd (handle now PostOrder reg)) ''place_order'' =
     (if counter reg ''place_order'' + 1 \<le> 4 then counter reg ''place_order'' + 1 else 0)"
  by (simp add: handler_defs counter_def Let_def)

lemma order_status_step:
  "status (fst (handle now PostOrder reg)) =
     (if counter reg ''place_order'' + 1 \<le> 4 then 418 else 200)"
  by (simp add: handler_defs counter_def Let_def)

lemma ticker_counter_step:
  "counter (snd (handle now GetTicker reg)) ''ticker'' =
     (if counter reg ''ticker'' + 1 = 4 then 4 else 0)"
  by (simp add: handler_defs counter_def Let_def)

lemma ticker_status_step:
  "status (fst (handle now GetTicker reg)) = (if counter reg ''ticker'' + 1 = 4 then 429 else 200)"
  by (simp add: handler_defs counter_def Let_def)

subsection \<open>Sequences of calls\<close>

lemma serve_Cons:
  "serve ((now, rq) # rest) reg =
     (fst (handle now rq reg) # fst (serve rest (snd (handle now rq reg))),
      snd (serve rest (snd (handle now rq reg))))"
  by (simp add: case_prod_beta Let_def)

lemma serve_snoc:
  "serve (rqs @ [(now, rq)]) reg =
     (fst (serve rqs reg) @ [fst (handle now rq (snd (serve rqs reg)))],
      snd (handle now rq (snd (serve rqs reg))))"
proof (induction rqs arbitrary: reg)
  case Nil
  show ?case by (simp add: case_prod_beta Let_def)
next
  case (Cons p rqs)
  obtain t r where p: "p = (t, r)" by (cases p)
  show ?case unfolding p append_Cons serve_Cons Cons.IH by simp
qed

lemma length_serve: "length (fst (serve rqs reg)) = length rqs"
proof (induction rqs arbitrary: reg)
  case Nil
  show ?case by simp
next
  case (Cons p rqs)
  obtain t r where p: "p = (t, r)" by (cases p)
  show ?case unfolding p serve_Cons using Cons.IH by simp
qed

lemma calls_snoc: "calls rq (clock @ [t]) = calls rq clock @ [(t, rq)]"
  by (simp add: calls_def)

text \<open>
  The time and the order endpoint count modulo their cycle length, for any number of
  calls from the start of the service.
\<close>

lemma time_counter_cycle:
  "counter (snd (serve (calls GetTime clock) Map.empty)) ''time'' = int (length clock) mod 4"
proof (induction clock rule: rev_induct)
  case Nil
  show ?case by (simp add: calls_def counter_def)
next
  case (snoc t clock)
  define c where "c = counter (snd (serve (calls GetTime clock) Map.empty)) ''time''"
  have c: "c = int (length clock) mod 4" unfolding c_def by (rule snoc.IH)
  have "counter (snd (serve (calls GetTime (clock @ [t])) Map.empty)) ''time'' =
          (if c + 1 < 4 then c + 1 else 0)"
    unfolding calls_snoc serve_snoc c_def by (simp only: snd_conv time_counter_step)
  also have "\<dots> = int (length (clock @ [t])) mod 4"
    unfolding c by (simp only: length_append_singleton of_nat_Suc) presburger
  finally show ?case .
qed

lemma time_response_cycle:
  assumes "k < length clock"
  shows "status (fst (serve (calls GetTime clock) Map.empty) ! k) =
           (if (int k + 1) mod 4 = 0 then 200 else 503)"
  using assms
proof (induction clock rule: rev_induct)
  case Nil
  then show ?case by simp
next
  case (snoc t clock)
  have len: "length (fst (serve (calls GetTime clock) Map.empty)) = length clock"
    by (simp add: length_serve calls_def)
  show ?case
  proof (cases "k < length clock")
    case True
    then show ?thesis using snoc.IH len
      by (simp add: calls_snoc serve_snoc nth_append)
  next
    case False
    then have k: "k = length clock" using snoc.prems by simp
    have "status (fst (serve (calls GetTime (clock @ [t])) Map.empty) ! k) =
            (if int (length clock) mod 4 + 1 < 4 then 503 else 200)"
      unfolding k using len
      by (simp add: calls_snoc serve_snoc nth_append time_status_step time_counter_cycle
               del: handle.simps)
    also have "\<dots> = (if (int k + 1) mod 4 = 0 then 200 else 503)"
      unfolding k by presburger
    finally show ?thesis .
  qed
qed

lemma order_counter_cycle:
  "counter (snd (serve (calls PostOrder clock) Map.empty)) ''place_order'' =
     int (length clock) mod 5"
proof (induction clock rule: rev_induct)
  case Nil
  show ?case by (simp add: calls_def counter_def)
next
  case (snoc t clock)
  define c where "c = counter (snd (serve (calls PostOrder clock) Map.empty)) ''place_order''"
  have c: "c = int (length clock) mod 5" unfolding c_def by (rule snoc.IH)
  have "counter (snd (serve (calls PostOrder (clock @ [t])) Map.empty)) ''place_order'' =
          (if c + 1 \<le> 4 then c + 1 else 0)"
    unfolding calls_snoc serve_snoc c_def by (simp only: snd_conv order_counter_step)
  also have "\<dots> = int (length (clock @ [t])) mod 5"
    unfolding c by (simp only: length_append_singleton of_nat_Suc) presburger
  finally show ?case .
qed

lemma order_response_cycle:
  assumes "k < length clock"
  shows "status (fst (serve (calls PostOrder clock) Map.empty) ! k) =
           (if (int k + 1) mod 5 = 0 then 200 else 418)"
  using assms
proof (induction clock rule: rev_induct)
  case Nil
  then show ?case by simp
next
  case (snoc t clock)
  have len: "length (fst (serve (calls PostOrder clock) Map.empty)) = length clock"
    by (simp add: length_serve calls_def)
  show ?case
  proof (cases "k < length clock")
    case True
    then show ?thesis using snoc.IH len
      by (simp add: calls_snoc serve_snoc nth_append)
  next
    case False
    then have k: "k = length clock" using snoc.prems by simp
    have "status (fst (serve (calls PostOrder (clock @ [t])) Map.empty) ! k) =
            (if int (length clock) mod 5 + 1 \<le> 4 then 418 else 200)"
      unfolding k using len
      by (simp add: calls_snoc serve_snoc nth_append order_status_step order_counter_cycle
               del: handle.simps)
    also have "\<dots> = (if (int k + 1) mod 5 = 0 then 200 else 418)"
      unfolding k by presburger
    finally show ?thesis .
  qed
qed

text \<open>
  The ticker endpoint resets its counter in the branch that answers 200, so from the
  start of the service the counter never leaves 0 and the branch that answers 429 is
  never taken.
\<close>

lemma ticker_counter_stuck:
  "counter (snd (serve (calls GetTicker clock) Map.empty)) ''ticker'' = 0"
proof (induction clock rule: rev_induct)
  case Nil
  show ?case by (simp add: calls_def counter_def)
next
  case (snoc t clock)
  show ?case unfolding calls_snoc serve_snoc
    by (simp only: snd_conv ticker_counter_step snoc.IH) simp
qed

lemma ticker_always_200:
  assumes "k < length clock"
  shows "status (fst (serve (calls GetTicker clock) Map.empty) ! k) = 200"
  using assms
proof (induction clock rule: rev_induct)
  case Nil
  then show ?case by simp
next
  case (snoc t clock)
  have len: "length (fst (serve (calls GetTicker clock) Map.empty)) = length clock"
    by (simp add: length_serve calls_def)
  show ?case
  proof (cases "k < length clock")
    case True
    then show ?thesis using snoc.IH len
      by (simp add: calls_snoc serve_snoc nth_append)
  next
    case False
    then have k: "k = length clock" using snoc.prems by simp
    show ?thesis unfolding k using len
      by (simp add: calls_snoc serve_snoc nth_append ticker_status_step ticker_counter_stuck
               del: handle.simps)
  qed
qed

subsection \<open>The claims about the service\<close>

text \<open>
  C1. The claim: ticker calls 1, 2 and 3 answer 200, call 4 answers 429 and resets the
  counter, call 5 answers 200 again. In the code the first five ticker calls after the
  start of the service all answer 200: the fourth call is not rate limited.
\<close>

theorem ticker_fourth_call_not_limited:
  "map status (fst (serve (calls GetTicker [1, 2, 3, 4, 5]) Map.empty)) = [200, 200, 200, 200, 200]"
  by (simp add: calls_def handler_defs Let_def)

text \<open>
  C2. The claim: after \<open>k\<close> calls the counter of an endpoint is \<open>k\<close> modulo its cycle
  length. In the code the ticker counter is 0 after one, two and three ticker calls,
  where the claim gives 1, 2 and 3 (for the time and the order endpoint the claim
  holds, see \<open>time_counter_cycle\<close> and \<open>order_counter_cycle\<close>).
\<close>

theorem ticker_counter_not_cyclic:
  "counter (snd (serve (calls GetTicker [1]) Map.empty)) ''ticker'' = 0
   \<and> counter (snd (serve (calls GetTicker [1, 2]) Map.empty)) ''ticker'' = 0
   \<and> counter (snd (serve (calls GetTicker [1, 2, 3]) Map.empty)) ''ticker'' = 0"
  by (simp add: calls_def handler_defs Let_def counter_def)

text \<open>
  C7. From the start of the service, the time endpoint answers 503 to calls 1, 2 and 3,
  200 with the clock reading as \<open>serverTime\<close> to call 4 and 503 again to call 5; the order
  endpoint answers 418 to calls 1 to 4, 200 with \<open>orderId\<close> 1234567 to call 5 and 418
  again to call 6.
\<close>

theorem time_and_order_cycles:
  "map status (fst (serve (calls GetTime [t1, t2, t3, t4, t5]) Map.empty))
     = [503, 503, 503, 200, 503]
   \<and> json_get (body (fst (serve (calls GetTime [t1, t2, t3, t4, t5]) Map.empty) ! 3)) ''serverTime''
     = Some (JInt t4)
   \<and> map status (fst (serve (calls PostOrder [u1, u2, u3, u4, u5, u6]) Map.empty))
     = [418, 418, 418, 418, 200, 418]
   \<and> json_get (body (fst (serve (calls PostOrder [u1, u2, u3, u4, u5, u6]) Map.empty) ! 4)) ''orderId''
     = Some (JInt 1234567)"
  by (simp add: calls_def handler_defs Let_def)

text \<open>
  C8. A call to an endpoint leaves the counter of every other endpoint as it was, and
  the exchange-info and account endpoints leave the whole registry as it was; the
  response of an endpoint, and its own counter afterwards, depend on no counter but
  its own.
\<close>

theorem counters_are_framed:
  "(ep \<noteq> ''time'' \<longrightarrow> snd (handle now GetTime reg) ep = reg ep)
   \<and> (ep \<noteq> ''ticker'' \<longrightarrow> snd (handle now GetTicker reg) ep = reg ep)
   \<and> (ep \<noteq> ''place_order'' \<longrightarrow> snd (handle now PostOrder reg) ep = reg ep)
   \<and> snd (handle now (GetExchangeInfo symb) reg) = reg
   \<and> snd (handle now GetAccount reg) = reg
   \<and> (reg ''time'' = reg' ''time'' \<longrightarrow>
        fst (handle now GetTime reg) = fst (handle now GetTime reg')
        \<and> snd (handle now GetTime reg) ''time'' = snd (handle now GetTime reg') ''time'')
   \<and> (reg ''ticker'' = reg' ''ticker'' \<longrightarrow>
        fst (handle now GetTicker reg) = fst (handle now GetTicker reg')
        \<and> snd (handle now GetTicker reg) ''ticker'' = snd (handle now GetTicker reg') ''ticker'')
   \<and> (reg ''place_order'' = reg' ''place_order'' \<longrightarrow>
        fst (handle now PostOrder reg) = fst (handle now PostOrder reg')
        \<and> snd (handle now PostOrder reg) ''place_order''
            = snd (handle now PostOrder reg') ''place_order'')
   \<and> fst (handle now (GetExchangeInfo symb) reg) = fst (handle now (GetExchangeInfo symb) reg')
   \<and> fst (handle now GetAccount reg) = fst (handle now GetAccount reg')"
  by (simp add: handler_defs Let_def)

theorem counters_are_framed_witness:
  "''other'' \<noteq> ''time'' \<and> ''other'' \<noteq> ''ticker'' \<and> ''other'' \<noteq> ''place_order''
   \<and> snd (handle 5 GetTime [''time'' \<mapsto> 3, ''ticker'' \<mapsto> 2, ''place_order'' \<mapsto> 4, ''other'' \<mapsto> 7]) ''other''
       = Some 7
   \<and> snd (handle 5 GetTicker [''time'' \<mapsto> 3, ''ticker'' \<mapsto> 2, ''place_order'' \<mapsto> 4, ''other'' \<mapsto> 7]) ''other''
       = Some 7
   \<and> snd (handle 5 PostOrder [''time'' \<mapsto> 3, ''ticker'' \<mapsto> 2, ''place_order'' \<mapsto> 4, ''other'' \<mapsto> 7]) ''other''
       = Some 7
   \<and> fst (handle 5 GetTime [''time'' \<mapsto> 3, ''ticker'' \<mapsto> 2, ''place_order'' \<mapsto> 4, ''other'' \<mapsto> 7])
       = fst (handle 5 GetTime [''time'' \<mapsto> 3, ''ticker'' \<mapsto> 2, ''place_order'' \<mapsto> 4])"
  using counters_are_framed
    [of "''other''" 5 "[''time'' \<mapsto> 3, ''ticker'' \<mapsto> 2, ''place_order'' \<mapsto> 4, ''other'' \<mapsto> 7]"
        None "[''time'' \<mapsto> 3, ''ticker'' \<mapsto> 2, ''place_order'' \<mapsto> 4]"]
  by simp

section \<open>Properties of the percentile on exact products\<close>

lemma percentile_index:
  assumes "xs \<noteq> []"
  shows "percentile xs p =
           Inr (sort xs ! nat (max 0 (min (\<lceil>p * real (length xs)\<rceil> - 1) (int (length xs) - 1))))"
proof -
  define idx where "idx = max 0 (min (\<lceil>p * real (length xs)\<rceil> - 1) (int (length xs) - 1))"
  have n: "0 < length xs" using assms by simp
  have "0 \<le> idx" "idx < int (length (sort xs))" using n unfolding idx_def by simp_all
  then have "py_index (sort xs) idx = Inr (sort xs ! nat idx)" by (simp add: py_index_def)
  then show ?thesis using assms unfolding idx_def by (simp add: percentile_def Let_def)
qed

lemma percentile_nearest_rank:
  assumes "xs \<noteq> []"
  shows "percentile xs p = Inr (nearest_rank xs p)"
proof -
  have n: "1 \<le> int (length xs)" using assms by (cases xs) simp_all
  have "nat (max 0 (min (r - 1) (int (length xs) - 1))) = nat (max 1 (min r (int (length xs)))) - 1"
    for r
    using n by linarith
  then show ?thesis using assms by (simp add: percentile_index nearest_rank_def Let_def)
qed

lemma percentile_member:
  assumes "xs \<noteq> []"
  shows "\<exists>v. percentile xs p = Inr v \<and> v \<in> set xs"
proof -
  define idx where
    "idx = nat (max 0 (min (\<lceil>p * real (length xs)\<rceil> - 1) (int (length xs) - 1)))"
  have "idx < length (sort xs)" using assms unfolding idx_def by (cases xs) auto
  then have "sort xs ! idx \<in> set (sort xs)" by (rule nth_mem)
  then show ?thesis using percentile_index [OF assms, of p] unfolding idx_def by simp
qed

lemma percentile_total: "\<exists>v. percentile xs p = Inr v"
proof (cases "xs = []")
  case True
  then show ?thesis by (simp add: percentile_def)
next
  case False
  then show ?thesis using percentile_member [of xs p] by blast
qed

lemma sort_first_Min:
  fixes xs :: "real list"
  assumes "xs \<noteq> []"
  shows "sort xs ! 0 = Min (set xs)"
proof -
  have len: "0 < length (sort xs)" using assms by simp
  have "Min (set (sort xs)) = sort xs ! 0"
  proof (rule Min_eqI)
    show "finite (set (sort xs))" by simp
    show "sort xs ! 0 \<in> set (sort xs)" using len by (rule nth_mem)
    fix y assume "y \<in> set (sort xs)"
    then obtain k where "k < length (sort xs)" "y = sort xs ! k"
      unfolding in_set_conv_nth by blast
    then show "sort xs ! 0 \<le> y" by (simp add: sorted_nth_mono)
  qed
  then show ?thesis by simp
qed

lemma sort_last_Max:
  fixes xs :: "real list"
  assumes "xs \<noteq> []"
  shows "sort xs ! (length xs - 1) = Max (set xs)"
proof -
  have len: "length xs - 1 < length (sort xs)" using assms by simp
  have "Max (set (sort xs)) = sort xs ! (length xs - 1)"
  proof (rule Max_eqI)
    show "finite (set (sort xs))" by simp
    show "sort xs ! (length xs - 1) \<in> set (sort xs)" using len by (rule nth_mem)
    fix y assume "y \<in> set (sort xs)"
    then obtain k where "k < length (sort xs)" "y = sort xs ! k"
      unfolding in_set_conv_nth by blast
    then show "y \<le> sort xs ! (length xs - 1)" using len by (simp add: sorted_nth_mono)
  qed
  then show ?thesis by simp
qed

lemma percentile_top:
  assumes "xs \<noteq> []" and "1 \<le> p"
  shows "percentile xs p = Inr (Max (set xs))"
proof -
  have n: "1 \<le> length xs" using assms(1) by (cases xs) simp_all
  have "1 * real (length xs) \<le> p * real (length xs)"
    by (rule mult_right_mono) (use assms(2) in simp_all)
  then have "int (length xs) \<le> \<lceil>p * real (length xs)\<rceil>" by (simp add: le_ceiling_iff)
  then have "nat (max 0 (min (\<lceil>p * real (length xs)\<rceil> - 1) (int (length xs) - 1)))
               = length xs - 1"
    using n by linarith
  then show ?thesis
    by (simp only: percentile_index [OF assms(1)] sort_last_Max [OF assms(1)])
qed

lemma percentile_bottom:
  assumes "xs \<noteq> []" and "p \<le> 0"
  shows "percentile xs p = Inr (Min (set xs))"
proof -
  have "p * real (length xs) \<le> 0" using assms(2) by (simp add: mult_le_0_iff)
  then have "\<lceil>p * real (length xs)\<rceil> \<le> 0" by (simp add: ceiling_le_iff)
  then have "nat (max 0 (min (\<lceil>p * real (length xs)\<rceil> - 1) (int (length xs) - 1))) = 0"
    by linarith
  then show ?thesis
    by (simp only: percentile_index [OF assms(1)] sort_first_Min [OF assms(1)])
qed

section \<open>Properties of the percentile on doubles\<close>

lemmas float_eval =
  round_double_def exponent_def pow2_def round_half_even_def binade.simps Let_def
  percentile_float_def float_of_int_def py_index_def

lemma binade_bounds:
  "0 < n \<Longrightarrow> 2 ^ binade n \<le> n \<and> n < 2 ^ Suc (binade n)"
proof (induction n rule: binade.induct)
  case (1 n)
  show ?case
  proof (cases "n < 2")
    case True
    then have "n = 1" using "1.prems" by simp
    then show ?thesis by (simp add: binade.simps)
  next
    case False
    then have pos: "0 < n div 2" by simp
    have b: "binade n = Suc (binade (n div 2))" using False by (simp add: binade.simps)
    have ih: "2 ^ binade (n div 2) \<le> n div 2 \<and> n div 2 < 2 ^ Suc (binade (n div 2))"
      using "1.IH" [OF False pos] .
    have "2 * 2 ^ binade (n div 2) \<le> n" using ih by linarith
    moreover have "n < 2 * 2 ^ Suc (binade (n div 2))" using ih by linarith
    ultimately show ?thesis unfolding b by simp
  qed
qed

lemma round_half_even_of_int: "round_half_even (of_int k) = k"
  by (simp add: round_half_even_def)

lemma round_double_finite:
  assumes "\<bar>x\<bar> < 2 ^ 1024 - 2 ^ 970"
  shows "\<exists>y. round_double x = Finite y"
  using assms by (simp add: round_double_def Let_def)

lemma round_double_nat:
  assumes "n < 2 ^ 53"
  shows "round_double (real n) = Finite (real n)"
proof (cases "n = 0")
  case True
  then show ?thesis by (simp add: round_double_def)
next
  case False
  then have pos: "0 < n" by simp
  define e where "e = binade n"
  have lo: "2 ^ e \<le> n" and hi: "n < 2 ^ Suc e"
    using binade_bounds [OF pos] unfolding e_def by simp_all
  have lt: "(2 :: nat) ^ e < 2 ^ 53" using lo assms by linarith
  have e52: "e \<le> 52"
  proof (rule ccontr)
    assume "\<not> e \<le> 52"
    then have "53 \<le> e" by simp
    then have "(2 :: nat) ^ 53 \<le> 2 ^ e" by (rule power_increasing) simp
    then show False using lt by linarith
  qed
  have ex: "exponent \<bar>real n\<bar> = int e"
    using pos unfolding exponent_def e_def by simp
  have q: "pow2 (int e - 52) = 1 / 2 ^ (52 - e)"
  proof (cases "e = 52")
    case True
    then show ?thesis by (simp add: pow2_def)
  next
    case False
    then have "e < 52" using e52 by simp
    then have "nat (52 - int e) = 52 - e" by simp
    then show ?thesis using \<open>e < 52\<close> by (simp add: pow2_def)
  qed
  have scaled: "\<bar>real n\<bar> / pow2 (int e - 52) = of_int (int n * 2 ^ (52 - e))"
    unfolding q by simp
  have small: "\<not> 2 ^ 1024 - 2 ^ 970 \<le> \<bar>real n\<bar>"
  proof -
    have "real n < 2 ^ 53" using assms by (metis of_nat_less_iff of_nat_numeral of_nat_power)
    moreover have "(2 :: real) ^ 53 \<le> 2 ^ 1024 - 2 ^ 970" by simp
    ultimately show ?thesis by simp
  qed
  have rhe: "round_half_even (\<bar>real n\<bar> / pow2 (int e - 52)) = int n * 2 ^ (52 - e)"
    by (simp only: scaled round_half_even_of_int)
  have unscaled: "of_int (int n * 2 ^ (52 - e)) * pow2 (int e - 52) = real n"
    unfolding q by simp
  have "round_double (real n) =
          Finite (sgn (real n) * (of_int (round_half_even (\<bar>real n\<bar> / pow2 (int e - 52)))
                                  * pow2 (int e - 52)))"
    using pos small unfolding round_double_def ex by (simp add: Let_def)
  also have "\<dots> = Finite (real n)"
    unfolding rhe unscaled using pos by simp
  finally show ?thesis .
qed

lemma float_of_len:
  assumes "n < 2 ^ 53"
  shows "float_of_int (int n) = Inr (Finite (real n))"
  using round_double_nat [OF assms] by (simp add: float_of_int_def)

lemma percentile_float_index:
  assumes "xs \<noteq> []" and "length xs < 2 ^ 53"
    and "round_double (p * real (length xs)) = Finite x"
  shows "percentile_float xs (Finite p) =
           Inr (sort xs ! nat (max 0 (min (\<lceil>x\<rceil> - 1) (int (length xs) - 1))))"
proof -
  define idx where "idx = max 0 (min (\<lceil>x\<rceil> - 1) (int (length xs) - 1))"
  have n: "0 < length xs" using assms(1) by simp
  have "0 \<le> idx" "idx < int (length (sort xs))" using n unfolding idx_def by simp_all
  then have "py_index (sort xs) idx = Inr (sort xs ! nat idx)" by (simp add: py_index_def)
  then show ?thesis
    using assms(1,3) float_of_len [OF assms(2)] unfolding idx_def
    by (simp add: percentile_float_def Let_def)
qed

lemma percentile_float_rank:
  assumes "xs \<noteq> []" and "length xs < 2 ^ 53"
    and "round_double (p * real (length xs)) = Finite x"
  shows "percentile_float xs (Finite p) = Inr (nearest_rank_at xs \<lceil>x\<rceil>)"
proof -
  have n: "1 \<le> int (length xs)" using assms(1) by (cases xs) simp_all
  have "nat (max 0 (min (r - 1) (int (length xs) - 1))) = nat (max 1 (min r (int (length xs)))) - 1"
    for r
    using n by linarith
  then show ?thesis
    by (simp add: percentile_float_index [OF assms] nearest_rank_at_def)
qed

lemma percentile_float_member:
  assumes "xs \<noteq> []" and "length xs < 2 ^ 53"
    and "round_double (p * real (length xs)) = Finite x"
  shows "\<exists>v. percentile_float xs (Finite p) = Inr v \<and> v \<in> set xs"
proof -
  define idx where "idx = nat (max 0 (min (\<lceil>x\<rceil> - 1) (int (length xs) - 1)))"
  have "idx < length (sort xs)" using assms(1) unfolding idx_def by (cases xs) auto
  then have "sort xs ! idx \<in> set (sort xs)" by (rule nth_mem)
  then show ?thesis using percentile_float_index [OF assms] unfolding idx_def by simp
qed

lemma percentile_float_one:
  assumes "xs \<noteq> []" and "length xs < 2 ^ 53"
  shows "percentile_float xs (Finite 1) = Inr (Max (set xs))"
proof -
  have n: "1 \<le> length xs" using assms(1) by (cases xs) simp_all
  have r: "round_double (1 * real (length xs)) = Finite (real (length xs))"
    using round_double_nat [OF assms(2)] by simp
  have "nat (max 0 (min (\<lceil>real (length xs)\<rceil> - 1) (int (length xs) - 1))) = length xs - 1"
    using n by simp
  then show ?thesis
    by (simp only: percentile_float_index [OF assms r] sort_last_Max [OF assms(1)])
qed

lemma percentile_float_zero:
  assumes "xs \<noteq> []" and "length xs < 2 ^ 53"
  shows "percentile_float xs (Finite 0) = Inr (Min (set xs))"
proof -
  have r: "round_double (0 * real (length xs)) = Finite 0" by (simp add: round_double_def)
  have "nat (max 0 (min (\<lceil>0 :: real\<rceil> - 1) (int (length xs) - 1))) = 0" by simp
  then show ?thesis
    by (simp only: percentile_float_index [OF assms r] sort_first_Min [OF assms(1)])
qed

lemma percentile_float_two:
  assumes "xs \<noteq> []" and "length xs < 2 ^ 52"
  shows "percentile_float xs (Finite 2) = Inr (Max (set xs))"
proof -
  have n: "1 \<le> length xs" using assms(1) by (cases xs) simp_all
  have len: "length xs < 2 ^ 53" using assms(2) by simp
  have "2 * length xs < 2 ^ 53" using assms(2) by simp
  then have "round_double (real (2 * length xs)) = Finite (real (2 * length xs))"
    by (rule round_double_nat)
  then have r: "round_double (2 * real (length xs)) = Finite (2 * real (length xs))" by simp
  have "\<lceil>2 * real (length xs)\<rceil> = 2 * int (length xs)"
    by (metis ceiling_of_int of_int_mult of_int_numeral of_int_of_nat_eq)
  then have "nat (max 0 (min (\<lceil>2 * real (length xs)\<rceil> - 1) (int (length xs) - 1))) = length xs - 1"
    using n by simp
  then show ?thesis
    by (simp only: percentile_float_index [OF assms(1) len r] sort_last_Max [OF assms(1)])
qed

lemma percentile_float_exact:
  assumes "xs \<noteq> []" and "length xs < 2 ^ 53"
    and "round_double (p * real (length xs)) = Finite x"
    and "\<lceil>x\<rceil> = \<lceil>p * real (length xs)\<rceil>"
  shows "percentile_float xs (Finite p) = percentile xs p"
  by (simp only: percentile_float_index [OF assms(1,2,3)] percentile_index [OF assms(1)] assms(4))

text \<open>
  Two more evaluations: with a hundred samples, \<open>percentile(xs, 0.07)\<close> is the 8th
  smallest, since \<open>0.07 * 100\<close> is rounded to the double above 7; and with two samples
  \<open>percentile(xs, 1e308)\<close> raises, since the product is rounded to \<open>inf\<close>.
\<close>

lemma percentile_float_7_of_100: "percentile_float (map real [1..<101]) (round_double (7 / 100)) = Inr 8"
  by (simp add: float_eval upt_rec)

lemma percentile_float_1e308: "percentile_float [1, 2] (round_double (10 ^ 308)) = Inl OverflowError"
  by (simp add: float_eval)

text \<open>
  C5, as claimed: for a non-empty list and \<open>0 < p \<le> 1\<close>, the percentile is the element
  at the rank \<open>\<lceil>p \<times> count\<rceil>\<close>, clamped. It is not: for ten samples and the double that
  Python reads \<open>0.1\<close> as, which is a little more than a tenth, the exact product is a
  little more than 1 and its ceiling is 2, but the product is rounded to 1.0 and the
  function returns the smallest sample.
\<close>

theorem nearest_rank_misses_rounding:
  "round_double (1 / 10) = Finite (3602879701896397 / 36028797018963968)
   \<and> (0 :: real) < 3602879701896397 / 36028797018963968
   \<and> (3602879701896397 :: real) / 36028797018963968 \<le> 1
   \<and> percentile_float [1, 2, 3, 4, 5, 6, 7, 8, 9, 10]
         (Finite (3602879701896397 / 36028797018963968)) = Inr 1
   \<and> nearest_rank [1, 2, 3, 4, 5, 6, 7, 8, 9, 10] (3602879701896397 / 36028797018963968) = 2"
  by (simp add: float_eval nearest_rank_def)

text \<open>
  C5, amended: the rank is the ceiling of the product as the machine rounds it. For a
  non-empty list of fewer than \<open>2\<^sup>5\<^sup>3\<close> samples and \<open>0 < p \<le> 1\<close>, the product rounded to
  the nearest double is a finite \<open>x\<close> and the percentile is the element of the ascending
  list at the 1-indexed rank \<open>\<lceil>x\<rceil>\<close>, clamped to \<open>[1, count]\<close>. The percentile of the empty
  list is 0 for any \<open>p\<close>, also an infinity or NaN; the percentile at 1.0 of a non-empty
  list of fewer than \<open>2\<^sup>5\<^sup>3\<close> samples is its maximum; the percentile at 0.95 of 1, 2, 3,
  4, 5 is 5.
\<close>

theorem percentile_float_is_nearest_rank:
  "(xs \<noteq> [] \<and> length xs < 2 ^ 53 \<and> 0 < p \<and> p \<le> 1 \<longrightarrow>
      (\<exists>x. round_double (p * real (length xs)) = Finite x
           \<and> percentile_float xs (Finite p) = Inr (nearest_rank_at xs \<lceil>x\<rceil>)))
   \<and> percentile_float [] q = Inr 0
   \<and> (xs \<noteq> [] \<and> length xs < 2 ^ 53 \<longrightarrow> percentile_float xs (Finite 1) = Inr (Max (set xs)))
   \<and> percentile_float [1, 2, 3, 4, 5] (round_double (95 / 100)) = Inr 5"
proof (intro conjI impI)
  assume h: "xs \<noteq> [] \<and> length xs < 2 ^ 53 \<and> 0 < p \<and> p \<le> 1"
  have "p * real (length xs) \<le> 1 * real (length xs)"
    by (rule mult_right_mono) (use h in simp_all)
  moreover have "real (length xs) < 2 ^ 53"
    using h by (metis of_nat_less_iff of_nat_numeral of_nat_power)
  moreover have "0 \<le> p * real (length xs)" using h by simp
  moreover have "(2 :: real) ^ 53 \<le> 2 ^ 1024 - 2 ^ 970" by simp
  ultimately have "\<bar>p * real (length xs)\<bar> < 2 ^ 1024 - 2 ^ 970" by linarith
  then obtain x where x: "round_double (p * real (length xs)) = Finite x"
    using round_double_finite by blast
  have "percentile_float xs (Finite p) = Inr (nearest_rank_at xs \<lceil>x\<rceil>)"
    using h x by (simp add: percentile_float_rank)
  then show "\<exists>x. round_double (p * real (length xs)) = Finite x
           \<and> percentile_float xs (Finite p) = Inr (nearest_rank_at xs \<lceil>x\<rceil>)"
    using x by blast
next
  show "percentile_float [] q = Inr 0" by (simp add: percentile_float_def)
next
  assume "xs \<noteq> [] \<and> length xs < 2 ^ 53"
  then show "percentile_float xs (Finite 1) = Inr (Max (set xs))"
    by (simp add: percentile_float_one)
next
  show "percentile_float [1, 2, 3, 4, 5] (round_double (95 / 100)) = Inr 5"
    by (simp add: float_eval)
qed

theorem percentile_float_is_nearest_rank_witness:
  "[3, 1, 2] \<noteq> ([] :: real list) \<and> length [3, 1, 2 :: real] < 2 ^ 53
   \<and> (0 :: real) < 1 / 2 \<and> (1 :: real) / 2 \<le> 1
   \<and> round_double (1 / 2 * real (length [3, 1, 2 :: real])) = Finite (3 / 2)
   \<and> percentile_float [3, 1, 2] (Finite (1 / 2)) = Inr 2
   \<and> percentile_float [3, 1, 2] (Finite 1) = Inr 3"
  using percentile_float_is_nearest_rank [of "[3, 1, 2]" "1 / 2"]
  by (simp add: float_eval nearest_rank_at_def)

text \<open>
  C9, as claimed: the percentile is total for every real \<open>p\<close> and returns an element of
  a non-empty list. It is not: for two samples and the double \<open>2\<^sup>1\<^sup>0\<^sup>2\<^sup>3\<close> the product
  is rounded to \<open>inf\<close> and \<open>math.ceil\<close> raises OverflowError before the index is clamped.
\<close>

theorem percentile_float_overflows:
  "[1, 2] \<noteq> ([] :: real list)
   \<and> percentile_float [1, 2] (Finite (2 ^ 1023)) = Inl OverflowError"
  by (simp add: float_eval)

text \<open>
  C9, amended: for a non-empty list of fewer than \<open>2\<^sup>5\<^sup>3\<close> samples and every finite \<open>p\<close>,
  also \<open>p \<le> 0\<close> and \<open>p > 1\<close>, whose product with the count is in magnitude below
  \<open>2\<^sup>1\<^sup>0\<^sup>2\<^sup>4 - 2\<^sup>9\<^sup>7\<^sup>0\<close>, where doubles overflow, the percentile returns a value (the index
  is never out of range), and that value is an element of the list; for a list of
  fewer than \<open>2\<^sup>5\<^sup>2\<close> samples it is the minimum at 0.0 and the maximum at 2.0.
\<close>

theorem percentile_float_total_below_overflow:
  "(xs \<noteq> [] \<and> length xs < 2 ^ 53 \<and> \<bar>p\<bar> * real (length xs) < 2 ^ 1024 - 2 ^ 970 \<longrightarrow>
      (\<exists>v. percentile_float xs (Finite p) = Inr v \<and> v \<in> set xs))
   \<and> (xs \<noteq> [] \<and> length xs < 2 ^ 52 \<longrightarrow>
        percentile_float xs (Finite 0) = Inr (Min (set xs))
        \<and> percentile_float xs (Finite 2) = Inr (Max (set xs)))"
proof (intro conjI impI)
  assume h: "xs \<noteq> [] \<and> length xs < 2 ^ 53 \<and> \<bar>p\<bar> * real (length xs) < 2 ^ 1024 - 2 ^ 970"
  then have "\<bar>p * real (length xs)\<bar> < 2 ^ 1024 - 2 ^ 970" by (simp add: abs_mult)
  then obtain x where x: "round_double (p * real (length xs)) = Finite x"
    using round_double_finite by blast
  show "\<exists>v. percentile_float xs (Finite p) = Inr v \<and> v \<in> set xs"
    using h x percentile_float_member by blast
next
  assume h: "xs \<noteq> [] \<and> length xs < 2 ^ 52"
  then have "length xs < 2 ^ 53" by simp
  then show "percentile_float xs (Finite 0) = Inr (Min (set xs))"
    using h by (simp add: percentile_float_zero)
next
  assume "xs \<noteq> [] \<and> length xs < 2 ^ 52"
  then show "percentile_float xs (Finite 2) = Inr (Max (set xs))"
    by (simp add: percentile_float_two)
qed

theorem percentile_float_total_below_overflow_witness:
  "[3, 1, 2] \<noteq> ([] :: real list) \<and> length [3, 1, 2 :: real] < 2 ^ 52
   \<and> \<bar>- 7 :: real\<bar> * real (length [3, 1, 2 :: real]) < 2 ^ 1024 - 2 ^ 970
   \<and> percentile_float [3, 1, 2] (Finite (- 7)) = Inr 1
   \<and> percentile_float [3, 1, 2] (Finite 0) = Inr 1
   \<and> percentile_float [3, 1, 2] (Finite 2) = Inr 3"
  using percentile_float_total_below_overflow [of "[3, 1, 2]" "- 7"]
  by (simp add: float_eval)

section \<open>Properties of the driver\<close>

subsection \<open>The loop\<close>

lemma statuses_append: "statuses (xs @ ys) = statuses xs @ statuses ys"
  by (simp add: statuses_def map_filter_def)

lemma statuses_simps:
  "statuses [] = []"
  "statuses (PrintTimeout i t # tr) = ''TIMEOUT'' # statuses tr"
  "statuses (PrintStatus i st code el r # tr) = st # statuses tr"
  "statuses (PrintOutput out # tr) = statuses tr"
  "statuses (Sleep t # tr) = statuses tr"
  "statuses (MakeDirs d # tr) = statuses tr"
  "statuses (write_log dir i out) = []"
  by (simp_all add: statuses_def map_filter_def write_log_def)

lemma iteration_TimedOut:
  assumes "run_proc e i (base @ render_command (clock_ms e i) cli i) (timeout a) = TimedOut"
  shows "iteration a e base cli s i =
           Inr (s\<lparr>crashes := crashes s + 1, trace := trace s @ [PrintTimeout i (timeout a)]\<rparr>)"
  using assms by (simp add: iteration_def run_once_def Let_def)

lemma iteration_Exited:
  assumes "run_proc e i (base @ render_command (clock_ms e i) cli i) (timeout a) = Exited code elapsed captured"
    and "out = (case captured of None \<Rightarrow> [] | Some t \<Rightarrow> t)"
  shows "iteration a e base cli s i =
           Inr (s\<lparr>crashes := crashes s + (if code \<noteq> 0 then 1 else 0),
                  rate_limits := rate_limits s + (if contains ''Rate limit exceeded'' out then 1 else 0),
                  successes := successes s + (if \<not> contains ''Rate limit exceeded'' out \<and> code = 0 then 1 else 0),
                  retriable_seen := retriable_seen s + (if contains ''Retriable error'' out then 1 else 0),
                  durations := durations s @ [elapsed],
                  trace := trace s @ write_log (log_dir a) i out
                    @ (if verbose a then [PrintOutput out] else [])
                    @ [PrintStatus i (spec_status (Exited code elapsed captured)) code elapsed
                         (contains ''Retriable error'' out)]
                    @ (if sleep a > 0 then [Sleep (sleep a)] else [])\<rparr>)"
  using assms(1) unfolding assms(2) [symmetric] spec_status.simps
  by (simp add: iteration_def run_once_def Let_def assms(2) [symmetric])

lemma iteration_effect:
  fixes a e base cli s i
  defines "oc \<equiv> run_proc e i (base @ render_command (clock_ms e i) cli i) (timeout a)"
  shows "\<exists>s'. iteration a e base cli s i = Inr s'
           \<and> crashes s' = crashes s + (if crashed oc then 1 else 0)
           \<and> durations s' = durations s @ (case sample oc of None \<Rightarrow> [] | Some d \<Rightarrow> [d])
           \<and> statuses (trace s') = statuses (trace s) @ [spec_status oc]
           \<and> set (trace s) \<subseteq> set (trace s')
           \<and> (timed_out oc \<longrightarrow> PrintTimeout i (timeout a) \<in> set (trace s'))"
proof (cases oc)
  case TimedOut
  have it: "iteration a e base cli s i =
          Inr (s\<lparr>crashes := crashes s + 1, trace := trace s @ [PrintTimeout i (timeout a)]\<rparr>)"
    using TimedOut unfolding oc_def by (rule iteration_TimedOut)
  show ?thesis unfolding it TimedOut
    by (auto simp: statuses_append statuses_simps)
next
  case (Exited code elapsed captured)
  define out where "out = (case captured of None \<Rightarrow> [] | Some t \<Rightarrow> t)"
  note it = iteration_Exited [OF Exited [unfolded oc_def] out_def, of s]
  show ?thesis unfolding it Exited
    by (auto simp: statuses_append statuses_simps)
qed

lemma loop_effect:
  fixes a e base cli
  defines "oc \<equiv> \<lambda>i. run_proc e i (base @ render_command (clock_ms e i) cli i) (timeout a)"
  shows "\<exists>s'. loop a e base cli js s = Inr s'
           \<and> crashes s' = crashes s + int (length (filter (\<lambda>i. crashed (oc i)) js))
           \<and> durations s' = durations s @ List.map_filter (\<lambda>i. sample (oc i)) js
           \<and> statuses (trace s') = statuses (trace s) @ map (\<lambda>i. spec_status (oc i)) js
           \<and> set (trace s) \<subseteq> set (trace s')
           \<and> (\<forall>j \<in> set js. timed_out (oc j) \<longrightarrow> PrintTimeout j (timeout a) \<in> set (trace s'))"
proof (induction js arbitrary: s)
  case Nil
  show ?case by (simp add: map_filter_def)
next
  case (Cons i js)
  obtain s1 where s1: "iteration a e base cli s i = Inr s1"
    and c1: "crashes s1 = crashes s + (if crashed (oc i) then 1 else 0)"
    and d1: "durations s1 = durations s @ (case sample (oc i) of None \<Rightarrow> [] | Some d \<Rightarrow> [d])"
    and st1: "statuses (trace s1) = statuses (trace s) @ [spec_status (oc i)]"
    and t1: "set (trace s) \<subseteq> set (trace s1)"
    and p1: "timed_out (oc i) \<longrightarrow> PrintTimeout i (timeout a) \<in> set (trace s1)"
    using iteration_effect [of a e base cli s i] unfolding oc_def by blast
  obtain s2 where s2: "loop a e base cli js s1 = Inr s2"
    and c2: "crashes s2 = crashes s1 + int (length (filter (\<lambda>i. crashed (oc i)) js))"
    and d2: "durations s2 = durations s1 @ List.map_filter (\<lambda>i. sample (oc i)) js"
    and st2: "statuses (trace s2) = statuses (trace s1) @ map (\<lambda>i. spec_status (oc i)) js"
    and t2: "set (trace s1) \<subseteq> set (trace s2)"
    and p2: "\<forall>j \<in> set js. timed_out (oc j) \<longrightarrow> PrintTimeout j (timeout a) \<in> set (trace s2)"
    using Cons.IH [of s1] by blast
  have "loop a e base cli (i # js) s = Inr s2" using s1 s2 by simp
  moreover have "crashes s2 = crashes s + int (length (filter (\<lambda>i. crashed (oc i)) (i # js)))"
    using c1 c2 by simp
  moreover have "durations s2 = durations s @ List.map_filter (\<lambda>i. sample (oc i)) (i # js)"
    using d1 d2 by (cases "sample (oc i)") (simp_all add: map_filter_def)
  moreover have "statuses (trace s2) = statuses (trace s) @ map (\<lambda>i. spec_status (oc i)) (i # js)"
    using st1 st2 by simp
  moreover have "set (trace s) \<subseteq> set (trace s2)" using t1 t2 by blast
  moreover have "\<forall>j \<in> set (i # js). timed_out (oc j) \<longrightarrow> PrintTimeout j (timeout a) \<in> set (trace s2)"
    using p1 p2 t2 by auto
  ultimately show ?case by blast
qed

lemma run_iterations_effect:
  "\<exists>s. run_iterations a e cli = Inr s
       \<and> crashes s = int (length (filter (\<lambda>i. crashed (outcome_at a e cli i)) [1..iterations a]))
       \<and> durations s = List.map_filter (\<lambda>i. sample (outcome_at a e cli i)) [1..iterations a]
       \<and> statuses (trace s) = map (\<lambda>i. spec_status (outcome_at a e cli i)) [1..iterations a]
       \<and> (\<forall>j \<in> set [1..iterations a]. timed_out (outcome_at a e cli j) \<longrightarrow>
             PrintTimeout j (timeout a) \<in> set (trace s))"
proof -
  have init: "crashes (initial a) = 0" "durations (initial a) = []" "statuses (trace (initial a)) = []"
    by (simp_all add: initial_def statuses_simps)
  obtain s where s: "loop a e [''java'', ''-jar'', jar a] cli [1..iterations a] (initial a) = Inr s"
    and rest: "crashes s = crashes (initial a) + int (length (filter (\<lambda>i. crashed (outcome_at a e cli i)) [1..iterations a]))"
     "durations s = durations (initial a) @ List.map_filter (\<lambda>i. sample (outcome_at a e cli i)) [1..iterations a]"
     "statuses (trace s) = statuses (trace (initial a)) @ map (\<lambda>i. spec_status (outcome_at a e cli i)) [1..iterations a]"
     "\<forall>j \<in> set [1..iterations a]. timed_out (outcome_at a e cli j) \<longrightarrow>
             PrintTimeout j (timeout a) \<in> set (trace s)"
    using loop_effect [of a e "[''java'', ''-jar'', jar a]" cli "[1..iterations a]" "initial a"]
    unfolding outcome_at_def by blast
  have "run_iterations a e cli = Inr s" using s by (simp add: run_iterations_def)
  then show ?thesis using rest unfolding init by simp
qed

lemma main_runs:
  assumes "resolve_cli_args (command a) \<noteq> []"
    and "run_iterations a e (resolve_cli_args (command a)) = Inr s"
  shows "\<exists>report. main a e = Inr (if crashes s > 0 then 2 else 0, trace s @ [PrintSummary report])
           \<and> sum_command report = resolve_cli_args (command a)
           \<and> sum_crashes report = crashes s
           \<and> percentile (durations s) (50 / 100) = Inr (sum_p50 report)
           \<and> percentile (durations s) (95 / 100) = Inr (sum_p95 report)
           \<and> sum_avg report = average (durations s)
           \<and> sum_min report = fastest (durations s)
           \<and> sum_max report = slowest (durations s)"
proof -
  obtain p50 where p50: "percentile (durations s) (50 / 100) = Inr p50"
    using percentile_total by blast
  obtain p95 where p95: "percentile (durations s) (95 / 100) = Inr p95"
    using percentile_total by blast
  show ?thesis using assms p50 p95 by (simp add: main_def Let_def)
qed

lemma main_no_command:
  assumes "resolve_cli_args (command a) = []"
  shows "main a e = Inr (2, [Print ''ERROR: No command provided. Example: -- balances''])"
  using assms by (simp add: main_def Let_def)

lemma resolve_empty_iff: "resolve_cli_args cmd = [] \<longleftrightarrow> cmd = [''--'']"
  by (cases cmd) (auto simp: resolve_cli_args_def Let_def)

lemma map_filter_skip:
  assumes "f j = None"
  shows "List.map_filter f xs = List.map_filter f (filter (\<lambda>i. i \<noteq> j) xs)"
  using assms by (induction xs) (auto simp: map_filter_def)

lemma count_skip:
  assumes "distinct xs" and "j \<in> set xs" and "P j"
  shows "length (filter P xs) = 1 + length (filter P (filter (\<lambda>i. i \<noteq> j) xs))"
  using assms
proof (induction xs)
  case Nil
  then show ?case by simp
next
  case (Cons x xs)
  show ?case
  proof (cases "x = j")
    case True
    then have "j \<notin> set xs" using Cons.prems(1) by simp
    then have "filter (\<lambda>i. i \<noteq> j) xs = xs" by (auto simp: filter_id_conv)
    then show ?thesis using True Cons.prems(3) by simp
  next
    case False
    then show ?thesis using Cons by auto
  qed
qed


lemmas run_defs =
  main_def resolve_cli_args_def run_iterations_def initial_def iteration_def run_once_def
  write_log_def percentile_def py_index_def average_def fastest_def slowest_def
  render_command_def outcome_at_def

text \<open>The run of \<open>two_runs\<close> against \<open>healthy\<close>, evaluated.\<close>

lemma run_two_runs_healthy:
  "run_iterations two_runs healthy [''balances''] =
     Inr \<lparr>crashes = 0, rate_limits = 0, successes = 2, retriable_seen = 0,
          durations = [1 / 2, 1 / 2],
          trace = [PrintStatus 1 ''OK'' 0 (1 / 2) False, Sleep (1 / 5),
                   PrintStatus 2 ''OK'' 0 (1 / 2) False, Sleep (1 / 5)]\<rparr>"
  by (simp add: two_runs_def healthy_def run_iterations_def initial_def iteration_def run_once_def
        write_log_def render_command_def str_replace_def upto.simps Let_def)

subsection \<open>The claims about the driver\<close>

text \<open>
  C3, as claimed: invoked with no command at all, the driver terminates with exit code 2
  before it runs anything. It does not: with no command the driver runs the default
  command \<open>balances\<close>, here twice against a healthy target, and returns 0.
\<close>

theorem no_command_runs_default:
  "command two_runs = []
   \<and> main two_runs healthy =
       Inr (0, [PrintStatus 1 ''OK'' 0 (1 / 2) False, Sleep (1 / 5),
                PrintStatus 2 ''OK'' 0 (1 / 2) False, Sleep (1 / 5),
                PrintSummary \<lparr>sum_command = [''balances''], sum_iterations = 2, sum_successes = 2,
                  sum_rate_limits = 0, sum_retriable_seen = 0, sum_crashes = 0, sum_avg = 1 / 2,
                  sum_p50 = 1 / 2, sum_p95 = 1 / 2, sum_min = 1 / 2, sum_max = 1 / 2\<rparr>])"
  by (simp add: two_runs_def healthy_def run_defs str_replace_def upto.simps Let_def)

text \<open>
  C3, amended: invoked with the separator \<open>--\<close> and no command after it, the driver
  prints the error and terminates with exit code 2 before it starts any process or
  runs any iteration, whatever the environment.
\<close>

theorem separator_alone_exits_2:
  "command a = [''--''] \<longrightarrow>
     main a e = Inr (2, [Print ''ERROR: No command provided. Example: -- balances''])"
  by (simp add: main_no_command resolve_empty_iff)

theorem separator_alone_exits_2_witness:
  "command (two_runs\<lparr>command := [''--'']\<rparr>) = [''--'']
   \<and> main (two_runs\<lparr>command := [''--'']\<rparr>) healthy =
       Inr (2, [Print ''ERROR: No command provided. Example: -- balances''])"
  using separator_alone_exits_2 [of "two_runs\<lparr>command := [''--'']\<rparr>" healthy] by simp

text \<open>
  C4. Every iteration, timed out or completed, returns normally, prints exactly one
  status, the one of the specification's precedence (TIMEOUT, else RATE_LIMIT, else OK,
  else FAIL), and adds one to the crash tally exactly when the process timed out or
  exited with a non-zero code, whatever the status shown.
\<close>

theorem iteration_classifies:
  "\<exists>s'. iteration a e base cli s i = Inr s'
     \<and> statuses (trace s') = statuses (trace s)
          @ [spec_status (run_proc e i (base @ render_command (clock_ms e i) cli i) (timeout a))]
     \<and> crashes s' = crashes s
          + (if crashed (run_proc e i (base @ render_command (clock_ms e i) cli i) (timeout a))
             then 1 else 0)"
  using iteration_effect [of a e base cli s i] by blast

text \<open>A rate-limited run that exits with 1 shows RATE_LIMIT and counts as a crash.\<close>

theorem iteration_classifies_witness:
  "\<exists>s'. iteration three_runs flaky [''java''] [''show''] (initial three_runs) 3 = Inr s'
     \<and> statuses (trace s') = [''RATE_LIMIT''] \<and> crashes s' = 1"
  using iteration_classifies [of three_runs flaky "[''java'']" "[''show'']" "initial three_runs" 3]
  by (simp add: three_runs_def flaky_def initial_def statuses_simps)

text \<open>
  C6. In a run that reaches the loop, let the process of iteration \<open>j\<close> exceed the
  timeout. Then the loop still runs to its end and every iteration from 1 to the last
  prints its status, the status of iteration \<open>j\<close> is TIMEOUT, the duration list holds
  the samples of the other iterations only (so the average, the percentiles, the
  minimum and the maximum of the summary are those of the other iterations), the crash
  count is one more than the crashes of the other iterations, and the exit code is 2.
\<close>

theorem timeout_is_local:
  assumes "resolve_cli_args (command a) = cli" and "cli \<noteq> []"
    and "1 \<le> j" and "j \<le> iterations a"
    and "outcome_at a e cli j = TimedOut"
  shows "\<exists>s report.
           run_iterations a e cli = Inr s
         \<and> main a e = Inr (2, trace s @ [PrintSummary report])
         \<and> statuses (trace s) = map (\<lambda>i. spec_status (outcome_at a e cli i)) [1..iterations a]
         \<and> statuses (trace s) ! nat (j - 1) = ''TIMEOUT''
         \<and> PrintTimeout j (timeout a) \<in> set (trace s)
         \<and> durations s = List.map_filter (\<lambda>i. sample (outcome_at a e cli i))
                             (filter (\<lambda>i. i \<noteq> j) [1..iterations a])
         \<and> crashes s = 1 + int (length (filter (\<lambda>i. crashed (outcome_at a e cli i))
                                            (filter (\<lambda>i. i \<noteq> j) [1..iterations a])))
         \<and> sum_crashes report = crashes s
         \<and> sum_avg report = average (durations s)
         \<and> percentile (durations s) (50 / 100) = Inr (sum_p50 report)
         \<and> percentile (durations s) (95 / 100) = Inr (sum_p95 report)
         \<and> sum_min report = fastest (durations s)
         \<and> sum_max report = slowest (durations s)"
proof -
  let ?oc = "outcome_at a e cli"
  obtain s where run: "run_iterations a e cli = Inr s"
    and cr: "crashes s = int (length (filter (\<lambda>i. crashed (?oc i)) [1..iterations a]))"
    and du: "durations s = List.map_filter (\<lambda>i. sample (?oc i)) [1..iterations a]"
    and st: "statuses (trace s) = map (\<lambda>i. spec_status (?oc i)) [1..iterations a]"
    and pr: "\<forall>k \<in> set [1..iterations a]. timed_out (?oc k) \<longrightarrow>
               PrintTimeout k (timeout a) \<in> set (trace s)"
    using run_iterations_effect [of a e cli] by blast
  have j_in: "j \<in> set [1..iterations a]" using assms(3,4) by simp
  have printed: "PrintTimeout j (timeout a) \<in> set (trace s)"
    using pr j_in assms(5) by simp
  have len: "nat (j - 1) < length [1..iterations a]" using assms(3,4) by simp
  have "[1..iterations a] ! nat (j - 1) = j" using assms(3,4) by (simp add: nth_upto)
  then have shown: "statuses (trace s) ! nat (j - 1) = ''TIMEOUT''"
    unfolding st using len assms(5) by simp
  have du': "durations s = List.map_filter (\<lambda>i. sample (?oc i)) (filter (\<lambda>i. i \<noteq> j) [1..iterations a])"
    unfolding du by (rule map_filter_skip) (simp add: assms(5))
  have "length (filter (\<lambda>i. crashed (?oc i)) [1..iterations a]) =
          1 + length (filter (\<lambda>i. crashed (?oc i)) (filter (\<lambda>i. i \<noteq> j) [1..iterations a]))"
    by (rule count_skip) (use j_in assms(5) in simp_all)
  then have cr': "crashes s = 1 + int (length (filter (\<lambda>i. crashed (?oc i))
                                            (filter (\<lambda>i. i \<noteq> j) [1..iterations a])))"
    unfolding cr by simp
  then have pos: "crashes s > 0" by simp
  obtain report where
    m: "main a e = Inr (if crashes s > 0 then 2 else 0, trace s @ [PrintSummary report])"
    and r: "sum_crashes report = crashes s"
      "percentile (durations s) (50 / 100) = Inr (sum_p50 report)"
      "percentile (durations s) (95 / 100) = Inr (sum_p95 report)"
      "sum_avg report = average (durations s)"
      "sum_min report = fastest (durations s)"
      "sum_max report = slowest (durations s)"
    using main_runs [of a e s] run assms(1,2) by blast
  have m': "main a e = Inr (2, trace s @ [PrintSummary report])" using m pos by simp
  show ?thesis using run m' st shown printed du' cr' r by blast
qed

theorem timeout_is_local_witness:
  "resolve_cli_args (command three_runs) = [''show'', ''{i}'']
   \<and> [''show'', ''{i}''] \<noteq> ([] :: string list)
   \<and> (1 :: int) \<le> 2 \<and> 2 \<le> iterations three_runs
   \<and> outcome_at three_runs flaky [''show'', ''{i}''] 2 = TimedOut
   \<and> (\<exists>s report. run_iterations three_runs flaky [''show'', ''{i}''] = Inr s
         \<and> main three_runs flaky = Inr (2, trace s @ [PrintSummary report])
         \<and> statuses (trace s) = [''OK'', ''TIMEOUT'', ''RATE_LIMIT'']
         \<and> durations s = [1 / 2, 3 / 4]
         \<and> crashes s = 2)"
proof -
  let ?cli = "[''show'', ''{i}'']"
  have h1: "resolve_cli_args (command three_runs) = ?cli"
    by (simp add: three_runs_def resolve_cli_args_def)
  have h2: "?cli \<noteq> []" by simp
  have h3: "(1 :: int) \<le> 2" by simp
  have h4: "2 \<le> iterations three_runs" by (simp add: three_runs_def)
  have h5: "outcome_at three_runs flaky ?cli 2 = TimedOut"
    by (simp add: outcome_at_def flaky_def)
  have oc1: "outcome_at three_runs flaky ?cli 1 = Exited 0 (1 / 2) None"
    by (simp add: outcome_at_def flaky_def)
  have oc3: "outcome_at three_runs flaky ?cli 3
               = Exited 1 (3 / 4) (Some ''Rate limit exceeded, retry later'')"
    by (simp add: outcome_at_def flaky_def)
  have up: "[1..iterations three_runs] = [1, 2, 3]" by (simp add: three_runs_def upto.simps)
  obtain s report where run: "run_iterations three_runs flaky ?cli = Inr s"
    and m: "main three_runs flaky = Inr (2, trace s @ [PrintSummary report])"
    and st: "statuses (trace s) = map (\<lambda>i. spec_status (outcome_at three_runs flaky ?cli i))
                                     [1..iterations three_runs]"
    and du: "durations s = List.map_filter (\<lambda>i. sample (outcome_at three_runs flaky ?cli i))
                             (filter (\<lambda>i. i \<noteq> 2) [1..iterations three_runs])"
    and cr: "crashes s = 1 + int (length (filter (\<lambda>i. crashed (outcome_at three_runs flaky ?cli i))
                                            (filter (\<lambda>i. i \<noteq> 2) [1..iterations three_runs])))"
    using timeout_is_local [OF h1 h2 h3 h4 h5] by blast
  have st': "statuses (trace s) = [''OK'', ''TIMEOUT'', ''RATE_LIMIT'']"
    unfolding st up by (simp add: oc1 oc3 h5)
  have du': "durations s = [1 / 2, 3 / 4]"
    unfolding du up by (simp add: oc1 oc3 map_filter_simps)
  have cr': "crashes s = 2"
    unfolding cr up by (simp add: oc1 oc3)
  have "\<exists>s report. run_iterations three_runs flaky ?cli = Inr s
         \<and> main three_runs flaky = Inr (2, trace s @ [PrintSummary report])
         \<and> statuses (trace s) = [''OK'', ''TIMEOUT'', ''RATE_LIMIT'']
         \<and> durations s = [1 / 2, 3 / 4]
         \<and> crashes s = 2"
    using run m st' du' cr' by blast
  then show ?thesis using h1 h2 h3 h4 h5 by blast
qed

text \<open>
  C10. With an empty list of command tokens the driver runs the whole loop, one status
  per iteration, against the default command \<open>balances\<close> and reports on it; it prints
  the error and returns 2 without running anything exactly when the tokens are the
  separator \<open>--\<close> alone.
\<close>

theorem default_command_and_separator:
  "(command a = [] \<longrightarrow>
      (\<exists>s report. run_iterations a e [''balances''] = Inr s
         \<and> main a e = Inr (if crashes s > 0 then 2 else 0, trace s @ [PrintSummary report])
         \<and> sum_command report = [''balances'']
         \<and> length (statuses (trace s)) = nat (iterations a)))
   \<and> (main a e = Inr (2, [Print ''ERROR: No command provided. Example: -- balances''])
        \<longleftrightarrow> command a = [''--''])"
proof (intro conjI impI)
  assume empty: "command a = []"
  then have cli: "resolve_cli_args (command a) = [''balances'']"
    by (simp add: resolve_cli_args_def)
  obtain s where run: "run_iterations a e [''balances''] = Inr s"
    and st: "statuses (trace s) = map (\<lambda>i. spec_status (outcome_at a e [''balances''] i)) [1..iterations a]"
    using run_iterations_effect [of a e "[''balances'']"] by blast
  obtain report where
    "main a e = Inr (if crashes s > 0 then 2 else 0, trace s @ [PrintSummary report])"
    "sum_command report = [''balances'']"
    using main_runs [of a e s] run cli by auto
  moreover have "length (statuses (trace s)) = nat (iterations a)" unfolding st by simp
  ultimately show "\<exists>s report. run_iterations a e [''balances''] = Inr s
         \<and> main a e = Inr (if crashes s > 0 then 2 else 0, trace s @ [PrintSummary report])
         \<and> sum_command report = [''balances'']
         \<and> length (statuses (trace s)) = nat (iterations a)"
    using run by blast
next
  show "main a e = Inr (2, [Print ''ERROR: No command provided. Example: -- balances''])
        \<longleftrightarrow> command a = [''--'']"
  proof (cases "command a = [''--'']")
    case True
    then show ?thesis by (simp add: main_no_command resolve_empty_iff)
  next
    case False
    then have ne: "resolve_cli_args (command a) \<noteq> []" by (simp add: resolve_empty_iff)
    obtain s where run: "run_iterations a e (resolve_cli_args (command a)) = Inr s"
      using run_iterations_effect [of a e "resolve_cli_args (command a)"] by blast
    obtain report where
      "main a e = Inr (if crashes s > 0 then 2 else 0, trace s @ [PrintSummary report])"
      using main_runs [OF ne run] by blast
    then show ?thesis using False by simp
  qed
qed

theorem default_command_and_separator_witness:
  "command two_runs = []
   \<and> (\<exists>s report. run_iterations two_runs healthy [''balances''] = Inr s
         \<and> main two_runs healthy = Inr (0, trace s @ [PrintSummary report])
         \<and> statuses (trace s) = [''OK'', ''OK''])
   \<and> main two_runs healthy \<noteq> Inr (2, [Print ''ERROR: No command provided. Example: -- balances''])"
proof -
  have h: "command two_runs = []" by (simp add: two_runs_def)
  have ne: "command two_runs \<noteq> [''--'']" by (simp add: two_runs_def)
  note c = default_command_and_separator [of two_runs healthy]
  obtain s report where run: "run_iterations two_runs healthy [''balances''] = Inr s"
    and m: "main two_runs healthy
              = Inr (if crashes s > 0 then 2 else 0, trace s @ [PrintSummary report])"
    using c h by blast
  have s: "s = \<lparr>crashes = 0, rate_limits = 0, successes = 2, retriable_seen = 0,
          durations = [1 / 2, 1 / 2],
          trace = [PrintStatus 1 ''OK'' 0 (1 / 2) False, Sleep (1 / 5),
                   PrintStatus 2 ''OK'' 0 (1 / 2) False, Sleep (1 / 5)]\<rparr>"
    using run unfolding run_two_runs_healthy by simp
  have m': "main two_runs healthy = Inr (0, trace s @ [PrintSummary report])"
    using m unfolding s by simp
  have st: "statuses (trace s) = [''OK'', ''OK'']" unfolding s by (simp add: statuses_simps)
  have "\<exists>s report. run_iterations two_runs healthy [''balances''] = Inr s
         \<and> main two_runs healthy = Inr (0, trace s @ [PrintSummary report])
         \<and> statuses (trace s) = [''OK'', ''OK'']"
    using run m' st by blast
  moreover have "main two_runs healthy
        \<noteq> Inr (2, [Print ''ERROR: No command provided. Example: -- balances''])"
    using c ne by blast
  ultimately show ?thesis using h by blast
qed

end
